theory Spec2Isabelle
  imports Complex_Main "HOL-Library.Word"
begin

section \<open>Arithmetic of the platform\<close>

text \<open>
  The program computes on \<^verbatim>\<open>double\<close> and \<^verbatim>\<open>std::complex<double>\<close>. Their operations
  belong to the C++ implementation, not to the repository, so the embedding takes them as
  a parameter: a record of the operations the source uses, over any carrier \<open>'d\<close> of
  doubles. A complex number is the pair of its real and imaginary part, as
  \<^verbatim>\<open>std::complex<double>(x0, y0)\<close> builds it. Every theorem that quantifies over the record
  holds for each choice of the operations, IEEE 754 included.
\<close>

type_synonym 'd cplx = "'d \<times> 'd"

record 'd fp_ops =
  d_of_int :: "int \<Rightarrow> 'd"
  d_add :: "'d \<Rightarrow> 'd \<Rightarrow> 'd"
  d_sub :: "'d \<Rightarrow> 'd \<Rightarrow> 'd"
  d_mul :: "'d \<Rightarrow> 'd \<Rightarrow> 'd"
  d_div :: "'d \<Rightarrow> 'd \<Rightarrow> 'd"
  d_gt :: "'d \<Rightarrow> 'd \<Rightarrow> bool"
  c_add :: "'d cplx \<Rightarrow> 'd cplx \<Rightarrow> 'd cplx"
  c_mul :: "'d cplx \<Rightarrow> 'd cplx \<Rightarrow> 'd cplx"
  c_abs :: "'d cplx \<Rightarrow> 'd"

text \<open>
  The exact operations on the reals: what each double operation rounds. On operands whose
  exact result is a double (small integers, halves) nothing is rounded and the two agree;
  the concrete inputs below are of that kind.
\<close>

definition exact_ops :: "real fp_ops" where
  "exact_ops =
     \<lparr> d_of_int = of_int,
       d_add = (\<lambda>a b. a + b),
       d_sub = (\<lambda>a b. a - b),
       d_mul = (\<lambda>a b. a * b),
       d_div = (\<lambda>a b. a / b),
       d_gt = (\<lambda>a b. a > b),
       c_add = (\<lambda>(a, b) (c, d). (a + c, b + d)),
       c_mul = (\<lambda>(a, b) (c, d). (a * c - b * d, a * d + b * c)),
       c_abs = (\<lambda>(a, b). sqrt (a * a + b * b)) \<rparr>"

section \<open>The escape-time evaluator\<close>

text \<open>
  \<^verbatim>\<open>get_number_of_iterations(z0, size, max)\<close>: the \<^verbatim>\<open>for\<close> loop with its counter \<open>i\<close> and
  its variable \<open>z\<close>. The counter is an \<^verbatim>\<open>int\<close> that is incremented only below \<open>max\<close>, so it
  never overflows and a mathematical integer models it.
\<close>

function iterations_loop ::
  "'d fp_ops \<Rightarrow> 'd cplx \<Rightarrow> 'd \<Rightarrow> int \<Rightarrow> int \<Rightarrow> 'd cplx \<Rightarrow> int" where
  "iterations_loop ops z0 sz mx i z =
     (if i < mx then
        (if d_gt ops (c_abs ops z) sz then i
         else iterations_loop ops z0 sz mx (i + 1) (c_add ops (c_mul ops z z) z0))
      else mx)"
  by pat_completeness auto
termination
  by (relation "measure (\<lambda>(ops, z0, sz, mx, i, z). nat (mx - i))") auto

declare iterations_loop.simps [simp del]

definition get_number_of_iterations :: "'d fp_ops \<Rightarrow> 'd cplx \<Rightarrow> 'd \<Rightarrow> int \<Rightarrow> int" where
  "get_number_of_iterations ops z0 sz mx = iterations_loop ops z0 sz mx 0 z0"

text \<open>
  The evaluator as the specification words it: the recurrence variable starts at \<open>c\<close> and
  is replaced by \<open>z * z + c\<close> at each step; the result is the first index below
  \<open>max_iterations\<close> at which the magnitude exceeds the bound, and \<open>max_iterations\<close> when
  there is none.
\<close>

primrec orbit :: "'d fp_ops \<Rightarrow> 'd cplx \<Rightarrow> nat \<Rightarrow> 'd cplx" where
  "orbit ops c 0 = c"
| "orbit ops c (Suc n) = c_add ops (c_mul ops (orbit ops c n) (orbit ops c n)) c"

definition escapes_at :: "'d fp_ops \<Rightarrow> 'd cplx \<Rightarrow> 'd \<Rightarrow> nat \<Rightarrow> bool" where
  "escapes_at ops c bound n = d_gt ops (c_abs ops (orbit ops c n)) bound"

definition EscapeTimeEvaluator :: "'d fp_ops \<Rightarrow> 'd cplx \<Rightarrow> 'd \<Rightarrow> int \<Rightarrow> int" where
  "EscapeTimeEvaluator ops c bound max_iterations =
     (case find (escapes_at ops c bound) [0..<nat max_iterations] of
        Some n \<Rightarrow> int n
      | None \<Rightarrow> max_iterations)"

section \<open>The image generator\<close>

text \<open>
  \<^verbatim>\<open>int\<close> is taken to be 32 bits wide. Signed overflow is undefined behaviour in C++ and
  so is a write past the end of a vector: each is an error value of the model.
\<close>

datatype error = SignedOverflow | OutOfBounds

definition INT_MAX :: int where
  "INT_MAX = 2147483647"

type_synonym image = "8 word list"

text \<open>
  \<^verbatim>\<open>offset_in_interleaved_1d_vec<channel_count>(width, x, y, channel)\<close>: the arithmetic is on
  \<^verbatim>\<open>uint32_t\<close> and wraps; the result is widened to \<^verbatim>\<open>size_t\<close>, which keeps its value.
\<close>

definition offset_in_interleaved_1d_vec ::
  "32 word \<Rightarrow> 32 word \<Rightarrow> 32 word \<Rightarrow> 32 word \<Rightarrow> 32 word \<Rightarrow> nat" where
  "offset_in_interleaved_1d_vec channel_count width x y channel =
     unat ((y * width + x) * channel_count + channel)"

text \<open>
  The lambda \<^verbatim>\<open>get_scaled_coordinate\<close> captures \<open>size\<close> and \<open>pixels_wide\<close>; the literal \<open>2\<close>
  and \<open>pixels_wide\<close> are converted from \<^verbatim>\<open>int\<close> to \<^verbatim>\<open>double\<close> by the divisions.
\<close>

definition get_scaled_coordinate :: "'d fp_ops \<Rightarrow> 'd \<Rightarrow> int \<Rightarrow> 'd \<Rightarrow> 'd \<Rightarrow> 'd" where
  "get_scaled_coordinate ops sz pixels_wide center xy =
     d_add ops (d_sub ops center (d_div ops sz (d_of_int ops 2)))
       (d_div ops (d_mul ops sz xy) (d_of_int ops pixels_wide))"

text \<open>
  The body of the inner loop up to the store: the point \<open>z\<close> of pixel \<open>(x, y)\<close>, whose
  coordinates are converted to \<^verbatim>\<open>double\<close> at the call of the lambda, and its \<open>gray\<close>.
\<close>

definition pixel_point :: "'d fp_ops \<Rightarrow> 'd \<Rightarrow> 'd \<Rightarrow> 'd \<Rightarrow> int \<Rightarrow> int \<Rightarrow> int \<Rightarrow> 'd cplx" where
  "pixel_point ops center_x center_y sz pixels_wide x y =
     (let x0 = get_scaled_coordinate ops sz pixels_wide center_x (d_of_int ops x);
          y0 = get_scaled_coordinate ops sz pixels_wide center_y (d_of_int ops y)
      in (x0, y0))"

definition pixel_gray ::
  "'d fp_ops \<Rightarrow> 'd \<Rightarrow> 'd \<Rightarrow> 'd \<Rightarrow> int \<Rightarrow> int \<Rightarrow> int \<Rightarrow> int \<Rightarrow> int" where
  "pixel_gray ops center_x center_y sz max_iterations pixels_wide x y =
     (let z = pixel_point ops center_x center_y sz pixels_wide x y
      in max_iterations - get_number_of_iterations ops z sz max_iterations)"

text \<open>
  The loop over \<open>x\<close>: the offset is computed from the \<^verbatim>\<open>int\<close> arguments converted to
  \<^verbatim>\<open>uint32_t\<close>, and \<^verbatim>\<open>image[offset] = gray\<close> narrows the \<^verbatim>\<open>int\<close> to a byte.
\<close>

function x_loop ::
  "'d fp_ops \<Rightarrow> 'd \<Rightarrow> 'd \<Rightarrow> 'd \<Rightarrow> int \<Rightarrow> int \<Rightarrow> int \<Rightarrow> int \<Rightarrow> image \<Rightarrow> error + image" where
  "x_loop ops center_x center_y sz max_iterations pixels_wide y x img =
     (if x < pixels_wide then
        (let gray = pixel_gray ops center_x center_y sz max_iterations pixels_wide x y;
             offset = offset_in_interleaved_1d_vec 1 (word_of_int pixels_wide)
                        (word_of_int x) (word_of_int y) 0
         in if offset < length img
            then x_loop ops center_x center_y sz max_iterations pixels_wide y (x + 1)
                   (img[offset := word_of_int gray])
            else Inl OutOfBounds)
      else Inr img)"
  by pat_completeness auto
termination
  by (relation "measure (\<lambda>(ops, cx, cy, sz, mx, pw, y, x, img). nat (pw - x))") auto

declare x_loop.simps [simp del]

function y_loop ::
  "'d fp_ops \<Rightarrow> 'd \<Rightarrow> 'd \<Rightarrow> 'd \<Rightarrow> int \<Rightarrow> int \<Rightarrow> int \<Rightarrow> image \<Rightarrow> error + image" where
  "y_loop ops center_x center_y sz max_iterations pixels_wide y img =
     (if y < pixels_wide then
        (case x_loop ops center_x center_y sz max_iterations pixels_wide y 0 img of
           Inl e \<Rightarrow> Inl e
         | Inr img' \<Rightarrow> y_loop ops center_x center_y sz max_iterations pixels_wide (y + 1) img')
      else Inr img)"
  by pat_completeness auto
termination
  by (relation "measure (\<lambda>(ops, cx, cy, sz, mx, pw, y, img). nat (pw - y))") auto

declare y_loop.simps [simp del]

text \<open>
  \<^verbatim>\<open>pixels_wide * pixels_wide\<close> is a product of two \<^verbatim>\<open>int\<close>s; it is never negative, so it
  overflows exactly when it exceeds \<open>INT_MAX\<close>. The vector starts as that many zero bytes.
\<close>

definition create_grayscale_mandelbrot_image ::
  "'d fp_ops \<Rightarrow> 'd \<Rightarrow> 'd \<Rightarrow> 'd \<Rightarrow> int \<Rightarrow> int \<Rightarrow> error + image" where
  "create_grayscale_mandelbrot_image ops center_x center_y sz max_iterations pixels_wide =
     (if INT_MAX < pixels_wide * pixels_wide then Inl SignedOverflow
      else y_loop ops center_x center_y sz max_iterations pixels_wide 0
             (replicate (nat (pixels_wide * pixels_wide)) 0))"

text \<open>
  The coordinate mapping as the specification words it:
  \<open>coordinate = center - size/2 + size * pixel_index / resolution\<close>.
\<close>

definition CoordinateMapper :: "'d fp_ops \<Rightarrow> 'd \<Rightarrow> 'd \<Rightarrow> int \<Rightarrow> int \<Rightarrow> 'd" where
  "CoordinateMapper ops center sz pixel_index resolution =
     d_add ops (d_sub ops center (d_div ops sz (d_of_int ops 2)))
       (d_div ops (d_mul ops sz (d_of_int ops pixel_index)) (d_of_int ops resolution))"

section \<open>Properties of the evaluator\<close>

lemma exact_ops_sel [simp]:
  "d_of_int exact_ops = of_int"
  "d_add exact_ops a b = a + b"
  "d_sub exact_ops a b = a - b"
  "d_mul exact_ops a b = a * b"
  "d_div exact_ops a b = a / b"
  "d_gt exact_ops a b \<longleftrightarrow> b < a"
  "c_add exact_ops (a, b) (c, d) = (a + c, b + d)"
  "c_mul exact_ops (a, b) (c, d) = (a * c - b * d, a * d + b * c)"
  "c_abs exact_ops (a, b) = sqrt (a * a + b * b)"
  by (simp_all add: exact_ops_def)

text \<open>The loop at counter \<open>i\<close> holds the \<open>i\<close>-th point of the orbit and looks for the first escape from there on.\<close>

lemma iterations_loop_find:
  "0 \<le> i \<Longrightarrow> z = orbit ops z0 (nat i) \<Longrightarrow>
   iterations_loop ops z0 sz mx i z =
     (case find (escapes_at ops z0 sz) [nat i..<nat mx] of Some n \<Rightarrow> int n | None \<Rightarrow> mx)"
proof (induction ops z0 sz mx i z rule: iterations_loop.induct)
  case (1 ops z0 sz mx i z)
  note unfold = iterations_loop.simps [of ops z0 sz mx i z]
  have esc: "escapes_at ops z0 sz (nat i) = d_gt ops (c_abs ops z) sz"
    using "1.prems" by (simp add: escapes_at_def)
  show ?case
  proof (cases "i < mx")
    case False
    then have "iterations_loop ops z0 sz mx i z = mx" by (simp add: unfold)
    with False show ?thesis by simp
  next
    case True
    then have "nat i < nat mx" using "1.prems"(1) by simp
    then have "[nat i..<nat mx] = nat i # [Suc (nat i)..<nat mx]" by (rule upt_conv_Cons)
    moreover have "Suc (nat i) = nat (i + 1)" using "1.prems"(1) by simp
    ultimately have upt: "[nat i..<nat mx] = nat i # [nat (i + 1)..<nat mx]" by simp
    show ?thesis
    proof (cases "d_gt ops (c_abs ops z) sz")
      case True
      with \<open>i < mx\<close> have "iterations_loop ops z0 sz mx i z = i" by (simp add: unfold)
      with True "1.prems"(1) show ?thesis by (simp add: upt esc)
    next
      case False
      have nxt: "c_add ops (c_mul ops z z) z0 = orbit ops z0 (nat (i + 1))"
        using "1.prems" by (simp add: nat_add_distrib)
      have "iterations_loop ops z0 sz mx i z =
          iterations_loop ops z0 sz mx (i + 1) (c_add ops (c_mul ops z z) z0)"
        using False \<open>i < mx\<close> by (simp add: unfold)
      also have "\<dots> =
        (case find (escapes_at ops z0 sz) [nat (i + 1)..<nat mx] of Some n \<Rightarrow> int n | None \<Rightarrow> mx)"
        using "1.IH" [OF \<open>i < mx\<close> False _ nxt] "1.prems"(1) by simp
      finally show ?thesis using False by (simp add: upt esc)
    qed
  qed
qed

lemma iterations_loop_range:
  "0 \<le> i \<Longrightarrow> i \<le> mx \<Longrightarrow>
   i \<le> iterations_loop ops z0 sz mx i z \<and> iterations_loop ops z0 sz mx i z \<le> mx"
proof (induction ops z0 sz mx i z rule: iterations_loop.induct)
  case (1 ops z0 sz mx i z)
  note unfold = iterations_loop.simps [of ops z0 sz mx i z]
  show ?case
  proof (cases "i < mx \<and> \<not> d_gt ops (c_abs ops z) sz")
    case True
    then have "i + 1 \<le> iterations_loop ops z0 sz mx (i + 1) (c_add ops (c_mul ops z z) z0) \<and>
       iterations_loop ops z0 sz mx (i + 1) (c_add ops (c_mul ops z z) z0) \<le> mx"
      using "1.IH" "1.prems" by simp
    with True show ?thesis by (simp add: unfold)
  next
    case False
    with "1.prems" show ?thesis by (auto simp add: unfold)
  qed
qed

text \<open>A point that the update leaves in place and that is within the bound never escapes.\<close>

lemma iterations_loop_fixed:
  "c_add ops (c_mul ops z z) z0 = z \<Longrightarrow> \<not> d_gt ops (c_abs ops z) sz \<Longrightarrow>
   iterations_loop ops z0 sz mx i z = mx"
proof (induction ops z0 sz mx i z rule: iterations_loop.induct)
  case (1 ops z0 sz mx i z)
  note unfold = iterations_loop.simps [of ops z0 sz mx i z]
  show ?case
  proof (cases "i < mx")
    case True
    then have "iterations_loop ops z0 sz mx (i + 1) (c_add ops (c_mul ops z z) z0) = mx"
      using "1.IH" "1.prems" by simp
    with True "1.prems" show ?thesis by (simp add: unfold)
  next
    case False
    then show ?thesis by (simp add: unfold)
  qed
qed

lemma iterations_origin_exact:
  "0 \<le> b \<Longrightarrow> get_number_of_iterations exact_ops (0, 0) b mx = mx"
  unfolding get_number_of_iterations_def by (rule iterations_loop_fixed) simp_all

lemma iterations_escape_at_once:
  "0 < mx \<Longrightarrow> d_gt ops (c_abs ops z0) sz \<Longrightarrow> get_number_of_iterations ops z0 sz mx = 0"
  unfolding get_number_of_iterations_def by (subst iterations_loop.simps) simp


section \<open>Properties of the generator\<close>

lemma unat_word_of_int_32:
  "0 \<le> n \<Longrightarrow> n < 2 ^ 32 \<Longrightarrow> unat (word_of_int n :: 32 word) = nat n"
  by (simp add: unat_eq_nat_uint uint_word_of_int take_bit_int_eq_self)

lemma pixel_index_bound:
  fixes x y pw :: int
  assumes "0 \<le> x" "x < pw" "0 \<le> y" "y < pw"
  shows "0 \<le> y * pw + x" and "y * pw + x < pw * pw"
proof -
  show "0 \<le> y * pw + x" using assms by simp
  have "y * pw \<le> (pw - 1) * pw" using assms by (intro mult_right_mono) auto
  also have "\<dots> = pw * pw - pw" by (simp add: algebra_simps)
  finally show "y * pw + x < pw * pw" using assms by simp
qed

lemma offset_nat:
  assumes "0 \<le> x" "x < pw" "0 \<le> y" "y < pw" "pw * pw \<le> 2 ^ 32"
  shows "offset_in_interleaved_1d_vec 1 (word_of_int pw) (word_of_int x) (word_of_int y) 0 = nat (y * pw + x)"
proof -
  have nn: "0 \<le> y * pw + x" and lt: "y * pw + x < pw * pw"
    using pixel_index_bound [OF assms(1-4)] by blast+
  from lt assms(5) have b: "y * pw + x < 2 ^ 32" by (rule less_le_trans)
  have "(word_of_int y * word_of_int pw + word_of_int x) * 1 + 0 = (word_of_int (y * pw + x) :: 32 word)"
    by simp
  then have "offset_in_interleaved_1d_vec 1 (word_of_int pw) (word_of_int x) (word_of_int y) 0 =
     unat (word_of_int (y * pw + x) :: 32 word)"
    unfolding offset_in_interleaved_1d_vec_def by (rule arg_cong)
  also have "\<dots> = nat (y * pw + x)"
    using nn b by (rule unat_word_of_int_32)
  finally show ?thesis .
qed

lemma pixel_index_div_mod:
  fixes x y pw :: int
  assumes "0 \<le> x" "x < pw"
  shows "(y * pw + x) div pw = y" and "(y * pw + x) mod pw = x"
proof -
  have "pw \<noteq> 0" using assms by auto
  then have "(y * pw + x) div pw = y + x div pw" by (simp add: add.commute)
  then show "(y * pw + x) div pw = y" using assms by (simp add: div_pos_pos_trivial)
  have "(y * pw + x) mod pw = x mod pw" by (simp add: add.commute)
  then show "(y * pw + x) mod pw = x" using assms by (simp add: mod_pos_pos_trivial)
qed


lemma x_loop_fill:
  assumes y: "0 \<le> y" "y < pw" and pw: "pw * pw \<le> 2 ^ 32"
  shows "0 \<le> x \<Longrightarrow> x \<le> pw \<Longrightarrow> length img = nat (pw * pw) \<Longrightarrow>
    \<exists>img'. x_loop ops cx cy sz mx pw y x img = Inr img' \<and> length img' = length img \<and>
      (\<forall>k < length img. img' ! k =
         (if nat (y * pw + x) \<le> k \<and> k < nat (y * pw + pw)
          then word_of_int (pixel_gray ops cx cy sz mx pw (int k - y * pw) y)
          else img ! k))"
  using y pw
proof (induction ops cx cy sz mx pw y x img rule: x_loop.induct)
  case (1 ops cx cy sz mx pw y x img)
  note unfold = x_loop.simps [of ops cx cy sz mx pw y x img]
  show ?case
  proof (cases "x < pw")
    case False
    then have "x_loop ops cx cy sz mx pw y x img = Inr img" by (simp add: unfold)
    moreover have "\<not> (nat (y * pw + x) \<le> k \<and> k < nat (y * pw + pw))" for k
      using False "1.prems" by auto
    ultimately show ?thesis by auto
  next
    case True
    define off where "off = nat (y * pw + x)"
    define v :: "8 word" where "v = word_of_int (pixel_gray ops cx cy sz mx pw x y)"
    define img1 where "img1 = img[off := v]"
    have nn: "0 \<le> y * pw + x" and lt: "y * pw + x < pw * pw"
      using pixel_index_bound [OF "1.prems"(1) True "1.prems"(4,5)] by blast+
    have offeq: "offset_in_interleaved_1d_vec 1 (word_of_int pw) (word_of_int x) (word_of_int y) 0 = off"
      unfolding off_def using "1.prems"(1) True "1.prems"(4,5,6) by (rule offset_nat)
    have inb: "off < length img"
      using lt nn "1.prems"(3) by (simp add: off_def)
    have step: "x_loop ops cx cy sz mx pw y x img = x_loop ops cx cy sz mx pw y (x + 1) img1"
      using True inb by (simp add: unfold offeq Let_def img1_def v_def)
    have len1: "length img1 = nat (pw * pw)"
      using "1.prems"(3) by (simp add: img1_def)
    have "\<exists>img'. x_loop ops cx cy sz mx pw y (x + 1) img1 = Inr img' \<and> length img' = length img1 \<and>
      (\<forall>k < length img1. img' ! k =
         (if nat (y * pw + (x + 1)) \<le> k \<and> k < nat (y * pw + pw)
          then word_of_int (pixel_gray ops cx cy sz mx pw (int k - y * pw) y)
          else img1 ! k))"
      using "1.IH" [OF True refl refl, unfolded offeq, OF inb, folded v_def, folded img1_def]
        "1.prems"(1,4,5,6) True len1 by simp
    then obtain img' where r: "x_loop ops cx cy sz mx pw y (x + 1) img1 = Inr img'"
      and len: "length img' = length img1"
      and pts: "\<And>k. k < length img1 \<Longrightarrow> img' ! k =
         (if nat (y * pw + (x + 1)) \<le> k \<and> k < nat (y * pw + pw)
          then word_of_int (pixel_gray ops cx cy sz mx pw (int k - y * pw) y)
          else img1 ! k)"
      by blast
    have "img' ! k =
         (if nat (y * pw + x) \<le> k \<and> k < nat (y * pw + pw)
          then word_of_int (pixel_gray ops cx cy sz mx pw (int k - y * pw) y)
          else img ! k)" if k: "k < length img" for k
    proof (cases "k = off")
      case True
      have "int off - y * pw = x" using nn by (simp add: off_def)
      moreover have "off < nat (y * pw + pw)" using \<open>x < pw\<close> nn by (simp add: off_def)
      moreover have "\<not> nat (y * pw + (x + 1)) \<le> off" using nn by (simp add: off_def)
      then have "img' ! off = img1 ! off" using pts [of off] inb by (simp add: img1_def)
      then have "img' ! off = v" using inb by (simp add: img1_def)
      ultimately show ?thesis using True by (simp add: v_def off_def)
    next
      case False
      have "nat (y * pw + (x + 1)) \<le> k \<longleftrightarrow> nat (y * pw + x) \<le> k"
        using False nn by (auto simp add: off_def)
      moreover have "img1 ! k = img ! k" using False by (simp add: img1_def)
      ultimately show ?thesis using pts [of k] k by (simp add: img1_def)
    qed
    with step r len show ?thesis by (simp add: img1_def)
  qed
qed

lemma y_loop_fill:
  assumes pw: "pw * pw \<le> 2 ^ 32"
  shows "0 \<le> y \<Longrightarrow> y \<le> pw \<Longrightarrow> length img = nat (pw * pw) \<Longrightarrow>
    \<exists>img'. y_loop ops cx cy sz mx pw y img = Inr img' \<and> length img' = length img \<and>
      (\<forall>k < length img. img' ! k =
         (if nat (y * pw) \<le> k
          then word_of_int (pixel_gray ops cx cy sz mx pw (int k mod pw) (int k div pw))
          else img ! k))"
  using pw
proof (induction ops cx cy sz mx pw y img rule: y_loop.induct)
  case (1 ops cx cy sz mx pw y img)
  note unfold = y_loop.simps [of ops cx cy sz mx pw y img]
  show ?case
  proof (cases "y < pw")
    case False
    then have "y_loop ops cx cy sz mx pw y img = Inr img" by (simp add: unfold)
    moreover have "\<not> nat (y * pw) \<le> k" if "k < length img" for k
      using False "1.prems" that by auto
    ultimately show ?thesis by auto
  next
    case True
    have "\<exists>img1. x_loop ops cx cy sz mx pw y 0 img = Inr img1 \<and> length img1 = length img \<and>
      (\<forall>k < length img. img1 ! k =
         (if nat (y * pw + 0) \<le> k \<and> k < nat (y * pw + pw)
          then word_of_int (pixel_gray ops cx cy sz mx pw (int k - y * pw) y)
          else img ! k))"
      using "1.prems" True by (intro x_loop_fill) auto
    then obtain img1 where r1: "x_loop ops cx cy sz mx pw y 0 img = Inr img1"
      and len1: "length img1 = length img"
      and pts1: "\<And>k. k < length img \<Longrightarrow> img1 ! k =
         (if nat (y * pw) \<le> k \<and> k < nat (y * pw + pw)
          then word_of_int (pixel_gray ops cx cy sz mx pw (int k - y * pw) y)
          else img ! k)"
      by auto
    have step: "y_loop ops cx cy sz mx pw y img = y_loop ops cx cy sz mx pw (y + 1) img1"
      using True r1 by (simp add: unfold)
    have "\<exists>img'. y_loop ops cx cy sz mx pw (y + 1) img1 = Inr img' \<and> length img' = length img1 \<and>
      (\<forall>k < length img1. img' ! k =
         (if nat ((y + 1) * pw) \<le> k
          then word_of_int (pixel_gray ops cx cy sz mx pw (int k mod pw) (int k div pw))
          else img1 ! k))"
      using "1.IH" [OF True r1] "1.prems" True len1 by simp
    then obtain img' where r: "y_loop ops cx cy sz mx pw (y + 1) img1 = Inr img'"
      and len: "length img' = length img1"
      and pts: "\<And>k. k < length img1 \<Longrightarrow> img' ! k =
         (if nat ((y + 1) * pw) \<le> k
          then word_of_int (pixel_gray ops cx cy sz mx pw (int k mod pw) (int k div pw))
          else img1 ! k)"
      by blast
    have row: "(y + 1) * pw = y * pw + pw" by (simp add: algebra_simps)
    have ypw: "0 \<le> y * pw" using "1.prems"(1) True by simp
    have "img' ! k =
         (if nat (y * pw) \<le> k
          then word_of_int (pixel_gray ops cx cy sz mx pw (int k mod pw) (int k div pw))
          else img ! k)" if k: "k < length img" for k
    proof (cases "nat (y * pw + pw) \<le> k")
      case True
      then have "nat (y * pw) \<le> k" using ypw \<open>y < pw\<close> "1.prems"(1) by linarith
      with True show ?thesis using pts [of k] k len1 by (simp add: row)
    next
      case False
      show ?thesis
      proof (cases "nat (y * pw) \<le> k")
        case True
        have lo: "y * pw \<le> int k" using True by linarith
        have hi: "int k < y * pw + pw" using False by linarith
        have "0 \<le> int k - y * pw" "int k - y * pw < pw" using lo hi by auto
        then have "(y * pw + (int k - y * pw)) div pw = y \<and>
            (y * pw + (int k - y * pw)) mod pw = int k - y * pw"
          using pixel_index_div_mod by blast
        then have "int k div pw = y \<and> int k mod pw = int k - y * pw" by simp
        with True False show ?thesis using pts [of k] pts1 [of k] k len1 by (simp add: row)
      next
        case False
        with \<open>\<not> nat (y * pw + pw) \<le> k\<close> show ?thesis
          using pts [of k] pts1 [of k] k len1 by (simp add: row)
      qed
    qed
    with step r len len1 show ?thesis by simp
  qed
qed

lemma offset_injective:
  fixes pw :: int
  assumes "pw \<le> 65536" "0 \<le> x1" "x1 < pw" "0 \<le> y1" "y1 < pw"
    "0 \<le> x2" "x2 < pw" "0 \<le> y2" "y2 < pw" "(x1, y1) \<noteq> (x2, y2)"
  shows "offset_in_interleaved_1d_vec 1 (word_of_int pw) (word_of_int x1) (word_of_int y1) 0 \<noteq>
         offset_in_interleaved_1d_vec 1 (word_of_int pw) (word_of_int x2) (word_of_int y2) 0"
proof
  assume eq: "offset_in_interleaved_1d_vec 1 (word_of_int pw) (word_of_int x1) (word_of_int y1) 0 =
         offset_in_interleaved_1d_vec 1 (word_of_int pw) (word_of_int x2) (word_of_int y2) 0"
  have "0 \<le> pw" using assms by simp
  then have "pw * pw \<le> 65536 * 65536" using assms(1) by (intro mult_mono) auto
  then have sq: "pw * pw \<le> 2 ^ 32" by simp
  have "nat (y1 * pw + x1) = nat (y2 * pw + x2)"
    using eq offset_nat [OF assms(2-5) sq] offset_nat [OF assms(6-9) sq] by simp
  moreover have "0 \<le> y1 * pw + x1" "0 \<le> y2 * pw + x2" using assms by simp_all
  ultimately have e: "y1 * pw + x1 = y2 * pw + x2" by linarith
  have "y1 = y2"
    using pixel_index_div_mod(1) [OF assms(2,3), of y1] pixel_index_div_mod(1) [OF assms(6,7), of y2] e
    by simp
  moreover have "x1 = x2"
    using pixel_index_div_mod(2) [OF assms(2,3), of y1] pixel_index_div_mod(2) [OF assms(6,7), of y2] e
    by simp
  ultimately show False using assms(10) by simp
qed

lemma uint_byte: "uint (word_of_int n :: 8 word) = n mod 256"
  by (simp add: uint_word_of_int take_bit_eq_mod)

text \<open>Concrete runs, on a grid of one pixel.\<close>

lemma point_a: "pixel_point exact_ops 1 1 2 1 0 0 = (0, 0)"
  by (simp add: pixel_point_def get_scaled_coordinate_def)

lemma point_b: "pixel_point exact_ops 4 1 2 1 0 0 = (3, 0)"
  by (simp add: pixel_point_def get_scaled_coordinate_def)

lemma gray_a: "pixel_gray exact_ops 1 1 2 mx 1 0 0 = 0"
  by (simp add: pixel_gray_def point_a iterations_origin_exact)

lemma gray_b: "0 < mx \<Longrightarrow> pixel_gray exact_ops 4 1 2 mx 1 0 0 = mx"
  by (simp add: pixel_gray_def point_b iterations_escape_at_once)

lemma offset_origin: "offset_in_interleaved_1d_vec 1 (word_of_int 1) (word_of_int 0) (word_of_int 0) 0 = 0"
  by (simp add: offset_in_interleaved_1d_vec_def)

lemma x_loop_done: "\<not> x < pw \<Longrightarrow> x_loop ops cx cy sz mx pw y x img = Inr img"
  by (subst x_loop.simps) simp

lemma y_loop_done: "\<not> y < pw \<Longrightarrow> y_loop ops cx cy sz mx pw y img = Inr img"
  by (subst y_loop.simps) simp

lemma single_pixel_image:
  "create_grayscale_mandelbrot_image ops cx cy sz mx 1 =
     Inr [word_of_int (pixel_gray ops cx cy sz mx 1 0 0)]"
proof -
  have "x_loop ops cx cy sz mx 1 0 0 [0] = Inr [word_of_int (pixel_gray ops cx cy sz mx 1 0 0)]"
    by (subst x_loop.simps) (simp add: offset_origin [simplified] x_loop_done)
  then have "y_loop ops cx cy sz mx 1 0 [0] = Inr [word_of_int (pixel_gray ops cx cy sz mx 1 0 0)]"
    by (subst y_loop.simps) (simp add: y_loop_done)
  then show ?thesis
    by (simp add: create_grayscale_mandelbrot_image_def INT_MAX_def)
qed

lemma image_a: "create_grayscale_mandelbrot_image exact_ops 1 1 2 3 1 = Inr [0]"
  by (simp add: single_pixel_image gray_a)

lemma image_b: "create_grayscale_mandelbrot_image exact_ops 4 1 2 3 1 = Inr [3]"
  by (simp add: single_pixel_image gray_b)

lemma image_c: "create_grayscale_mandelbrot_image exact_ops 4 1 2 256 1 = Inr [0]"
  by (simp add: single_pixel_image gray_b)

text \<open>
  A grid of two by two pixels, window of centre \<open>(1, 1)\<close> and size 2: the pixels are the
  points \<open>(0, 0)\<close>, \<open>(1, 0)\<close>, \<open>(0, 1)\<close> and \<open>(1, 1)\<close>, with 3, 2, 3 and 1 iterations out of 3.
\<close>

lemma sqrt_two_within: "\<not> 2 < sqrt 2"
proof -
  have "sqrt 2 \<le> 2" by (rule real_le_lsqrt) simp_all
  then show ?thesis by simp
qed

lemma sqrt_ten_beyond: "2 < sqrt 10"
  by (rule real_less_rsqrt) simp

lemma loop_step:
  "i < mx \<Longrightarrow> \<not> d_gt ops (c_abs ops z) sz \<Longrightarrow>
   iterations_loop ops z0 sz mx i z =
     iterations_loop ops z0 sz mx (i + 1) (c_add ops (c_mul ops z z) z0)"
  by (subst iterations_loop.simps) simp

lemma loop_escape:
  "i < mx \<Longrightarrow> d_gt ops (c_abs ops z) sz \<Longrightarrow> iterations_loop ops z0 sz mx i z = i"
  by (subst iterations_loop.simps) simp

lemma loop_end: "\<not> i < mx \<Longrightarrow> iterations_loop ops z0 sz mx i z = mx"
  by (subst iterations_loop.simps) simp

lemma iterations_1_0: "get_number_of_iterations exact_ops (1, 0) 2 3 = 2"
  by (simp add: get_number_of_iterations_def loop_step loop_escape)

lemma iterations_0_1: "get_number_of_iterations exact_ops (0, 1) 2 3 = 3"
  by (simp add: get_number_of_iterations_def loop_step loop_end sqrt_two_within)

lemma iterations_1_1: "get_number_of_iterations exact_ops (1, 1) 2 3 = 1"
  by (simp add: get_number_of_iterations_def loop_step loop_escape sqrt_two_within sqrt_ten_beyond)

lemma points_2x2:
  "pixel_point exact_ops 1 1 2 2 0 0 = (0, 0)"
  "pixel_point exact_ops 1 1 2 2 1 0 = (1, 0)"
  "pixel_point exact_ops 1 1 2 2 0 1 = (0, 1)"
  "pixel_point exact_ops 1 1 2 2 1 1 = (1, 1)"
  by (simp_all add: pixel_point_def get_scaled_coordinate_def)

lemma grays_2x2:
  "pixel_gray exact_ops 1 1 2 3 2 0 0 = 0"
  "pixel_gray exact_ops 1 1 2 3 2 1 0 = 1"
  "pixel_gray exact_ops 1 1 2 3 2 0 1 = 0"
  "pixel_gray exact_ops 1 1 2 3 2 1 1 = 2"
  by (simp_all add: pixel_gray_def points_2x2 iterations_origin_exact iterations_1_0
      iterations_0_1 iterations_1_1)

lemma x_loop_step:
  "x < pw \<Longrightarrow>
   offset_in_interleaved_1d_vec 1 (word_of_int pw) (word_of_int x) (word_of_int y) 0 = k \<Longrightarrow>
   k < length img \<Longrightarrow>
   x_loop ops cx cy sz mx pw y x img =
     x_loop ops cx cy sz mx pw y (x + 1) (img[k := word_of_int (pixel_gray ops cx cy sz mx pw x y)])"
  by (subst x_loop.simps) (simp add: Let_def)

lemma y_loop_step:
  "y < pw \<Longrightarrow> x_loop ops cx cy sz mx pw y 0 img = Inr img' \<Longrightarrow>
   y_loop ops cx cy sz mx pw y img = y_loop ops cx cy sz mx pw (y + 1) img'"
  by (subst y_loop.simps) simp

lemma offsets_2x2:
  "offset_in_interleaved_1d_vec 1 (word_of_int 2) (word_of_int 0) (word_of_int 0) 0 = 0"
  "offset_in_interleaved_1d_vec 1 (word_of_int 2) (word_of_int 1) (word_of_int 0) 0 = 1"
  "offset_in_interleaved_1d_vec 1 (word_of_int 2) (word_of_int 0) (word_of_int 1) 0 = 2"
  "offset_in_interleaved_1d_vec 1 (word_of_int 2) (word_of_int 1) (word_of_int 1) 0 = 3"
  by (simp_all add: offset_in_interleaved_1d_vec_def)

lemma row0_2x2: "x_loop exact_ops 1 1 2 3 2 0 0 [0, 0, 0, 0] = Inr [0, 1, 0, 0]"
proof -
  have "x_loop exact_ops 1 1 2 3 2 0 0 [0, 0, 0, 0] = x_loop exact_ops 1 1 2 3 2 0 (0 + 1) [0, 0, 0, 0]"
    using x_loop_step [of 0 2 0 0 "[0, 0, 0, 0]" exact_ops 1 1 2 3] offsets_2x2(1) grays_2x2(1)
    by simp
  also have "\<dots> = x_loop exact_ops 1 1 2 3 2 0 (1 + 1) [0, 1, 0, 0]"
    using x_loop_step [of 1 2 0 1 "[0, 0, 0, 0]" exact_ops 1 1 2 3] offsets_2x2(2) grays_2x2(2)
    by simp
  also have "\<dots> = Inr [0, 1, 0, 0]" by (simp add: x_loop_done)
  finally show ?thesis .
qed

lemma row1_2x2: "x_loop exact_ops 1 1 2 3 2 1 0 [0, 1, 0, 0] = Inr [0, 1, 0, 2]"
proof -
  have "x_loop exact_ops 1 1 2 3 2 1 0 [0, 1, 0, 0] = x_loop exact_ops 1 1 2 3 2 1 (0 + 1) [0, 1, 0, 0]"
    using x_loop_step [of 0 2 1 2 "[0, 1, 0, 0]" exact_ops 1 1 2 3] offsets_2x2(3) grays_2x2(3)
    by simp
  also have "\<dots> = x_loop exact_ops 1 1 2 3 2 1 (1 + 1) [0, 1, 0, 2]"
    using x_loop_step [of 1 2 1 3 "[0, 1, 0, 0]" exact_ops 1 1 2 3] offsets_2x2(4) grays_2x2(4)
    by simp
  also have "\<dots> = Inr [0, 1, 0, 2]" by (simp add: x_loop_done)
  finally show ?thesis .
qed

lemma image_2x2: "create_grayscale_mandelbrot_image exact_ops 1 1 2 3 2 = Inr [0, 1, 0, 2]"
proof -
  have "y_loop exact_ops 1 1 2 3 2 0 [0, 0, 0, 0] = y_loop exact_ops 1 1 2 3 2 (0 + 1) [0, 1, 0, 0]"
    by (rule y_loop_step [OF _ row0_2x2]) simp
  also have "\<dots> = y_loop exact_ops 1 1 2 3 2 (1 + 1) [0, 1, 0, 2]"
    using y_loop_step [OF _ row1_2x2] by simp
  also have "\<dots> = Inr [0, 1, 0, 2]" by (simp add: y_loop_done)
  finally have "y_loop exact_ops 1 1 2 3 2 0 [0, 0, 0, 0] = Inr [0, 1, 0, 2]" .
  moreover have "replicate (nat (2 * 2)) (0 :: 8 word) = [0, 0, 0, 0]"
    by (simp add: numeral_eq_Suc)
  ultimately show ?thesis
    by (simp add: create_grayscale_mandelbrot_image_def INT_MAX_def)
qed

text \<open>What a run of the generator returns, for any grid whose allocation size fits an \<^verbatim>\<open>int\<close>.\<close>

lemma generator_pixels:
  assumes "0 \<le> pw" and "pw * pw \<le> INT_MAX"
  shows "\<exists>img. create_grayscale_mandelbrot_image ops cx cy sz mx pw = Inr img \<and>
      length img = nat (pw * pw) \<and>
      (\<forall>x y. 0 \<le> x \<and> x < pw \<and> 0 \<le> y \<and> y < pw \<longrightarrow>
         nat (y * pw + x) < length img \<and>
         img ! nat (y * pw + x) = word_of_int (pixel_gray ops cx cy sz mx pw x y))"
proof -
  let ?zeros = "replicate (nat (pw * pw)) (0 :: 8 word)"
  have sq: "pw * pw \<le> 2 ^ 32" using assms(2) by (simp add: INT_MAX_def)
  have run: "create_grayscale_mandelbrot_image ops cx cy sz mx pw = y_loop ops cx cy sz mx pw 0 ?zeros"
    using assms(2) by (simp add: create_grayscale_mandelbrot_image_def)
  have "\<exists>img. y_loop ops cx cy sz mx pw 0 ?zeros = Inr img \<and> length img = length ?zeros \<and>
      (\<forall>k < length ?zeros. img ! k =
         (if nat (0 * pw) \<le> k
          then word_of_int (pixel_gray ops cx cy sz mx pw (int k mod pw) (int k div pw))
          else ?zeros ! k))"
    using sq assms(1) by (intro y_loop_fill) simp_all
  then obtain img where r: "y_loop ops cx cy sz mx pw 0 ?zeros = Inr img"
    and len: "length img = nat (pw * pw)"
    and pts: "\<And>k. k < nat (pw * pw) \<Longrightarrow>
        img ! k = word_of_int (pixel_gray ops cx cy sz mx pw (int k mod pw) (int k div pw))"
    by auto
  have "nat (y * pw + x) < length img \<and>
      img ! nat (y * pw + x) = word_of_int (pixel_gray ops cx cy sz mx pw x y)"
    if xy: "0 \<le> x" "x < pw" "0 \<le> y" "y < pw" for x y
  proof -
    have nn: "0 \<le> y * pw + x" and lt: "y * pw + x < pw * pw"
      using pixel_index_bound [OF xy] by blast+
    then have inb: "nat (y * pw + x) < nat (pw * pw)" by simp
    have "int (nat (y * pw + x)) mod pw = x" "int (nat (y * pw + x)) div pw = y"
      using nn pixel_index_div_mod [OF xy(1,2), of y] by simp_all
    with pts [OF inb] inb len show ?thesis by simp
  qed
  with run r len show ?thesis by simp
qed

lemma generator_defined:
  assumes "create_grayscale_mandelbrot_image ops cx cy sz mx pw = Inr img"
  shows "pw * pw \<le> INT_MAX"
  using assms by (simp add: create_grayscale_mandelbrot_image_def split: if_splits)

lemma generator_pixel:
  assumes "create_grayscale_mandelbrot_image ops cx cy sz mx pw = Inr img"
    and "0 \<le> x" "x < pw" "0 \<le> y" "y < pw"
  shows "img ! nat (y * pw + x) = word_of_int (pixel_gray ops cx cy sz mx pw x y)"
proof -
  have "0 \<le> pw" using assms(2,3) by simp
  then show ?thesis
    using generator_pixels [OF _ generator_defined [OF assms(1)], of ops cx cy sz mx] assms by auto
qed

section \<open>The claims\<close>

text \<open>
  Claim C1 states that for every view window and every grid with \<open>pixels_wide > 0\<close> and
  \<open>max_iterations > 0\<close> the generator returns a buffer of length
  \<open>pixels_wide * pixels_wide\<close> holding the narrowed gray value of each pixel. The run at
  \<open>pixels_wide = 46341\<close> does not: the allocation size \<open>pixels_wide * pixels_wide\<close> is
  computed in \<^verbatim>\<open>int\<close>, and \<open>46341 * 46341 = 2147488281\<close> exceeds \<open>INT_MAX\<close>, so the
  product overflows and no buffer of that length is returned.
\<close>

theorem create_grayscale_mandelbrot_image_overflow:
  "(0 :: real) < 2 \<and> (0 :: int) < 46341 \<and> (0 :: int) < 255 \<and>
   create_grayscale_mandelbrot_image exact_ops (- 1 / 2) 0 2 255 46341 = Inl SignedOverflow"
  by (simp add: create_grayscale_mandelbrot_image_def INT_MAX_def)

text \<open>
  Where the allocation size fits an \<^verbatim>\<open>int\<close>, the generator does what the claim states:
  for \<open>pixels_wide > 0\<close> with \<open>pixels_wide * pixels_wide \<le> INT_MAX\<close>, any \<open>max_iterations\<close> and
  any \<open>size\<close>, it returns a buffer of length \<open>pixels_wide * pixels_wide\<close> whose byte at
  offset \<open>y * pixels_wide + x\<close>, for every pixel \<open>(x, y)\<close> of the grid, is
  \<open>max_iterations - get_number_of_iterations(c, size, max_iterations)\<close> narrowed to a byte,
  where \<open>c\<close> has the coordinate mapped from \<open>x\<close> with \<open>center_x\<close> and the one mapped from \<open>y\<close>
  with \<open>center_y\<close>, and the bound of the evaluator is the size of the window.
\<close>

theorem create_grayscale_mandelbrot_image_pixels:
  assumes "0 < pw" and "pw * pw \<le> INT_MAX"
  shows "\<exists>img. create_grayscale_mandelbrot_image ops cx cy sz mx pw = Inr img \<and>
      length img = nat (pw * pw) \<and>
      (\<forall>x y. 0 \<le> x \<and> x < pw \<and> 0 \<le> y \<and> y < pw \<longrightarrow>
         img ! nat (y * pw + x) =
           word_of_int (mx - get_number_of_iterations ops
             (get_scaled_coordinate ops sz pw cx (d_of_int ops x),
              get_scaled_coordinate ops sz pw cy (d_of_int ops y)) sz mx))"
proof -
  have "0 \<le> pw" using assms(1) by simp
  from generator_pixels [OF this assms(2), of ops cx cy sz mx]
  show ?thesis by (auto simp add: pixel_gray_def pixel_point_def)
qed

text \<open>
  The grid of two by two pixels: the buffer is \<open>[0, 1, 0, 2]\<close>, row by row; the pixel
  \<open>(1, 0)\<close> is at offset 1 and the pixel \<open>(0, 1)\<close> at offset 2.
\<close>

theorem create_grayscale_mandelbrot_image_pixels_witness:
  "(0 :: int) < 2 \<and> (2 :: int) * 2 \<le> INT_MAX \<and>
   create_grayscale_mandelbrot_image exact_ops 1 1 2 3 2 = Inr [0, 1, 0, 2] \<and>
   length [0, 1, 0, 2 :: 8 word] = nat (2 * 2) \<and>
   [0, 1, 0, 2 :: 8 word] ! nat (0 * 2 + 1) =
     word_of_int (3 - get_number_of_iterations exact_ops (1, 0) 2 3) \<and>
   [0, 1, 0, 2 :: 8 word] ! nat (1 * 2 + 0) =
     word_of_int (3 - get_number_of_iterations exact_ops (0, 1) 2 3) \<and>
   [0, 1, 0, 2 :: 8 word] ! nat (1 * 2 + 1) =
     word_of_int (3 - get_number_of_iterations exact_ops (1, 1) 2 3)"
proof -
  have h: "(0 :: int) < 2" "(2 :: int) * 2 \<le> INT_MAX" by (simp_all add: INT_MAX_def)
  from create_grayscale_mandelbrot_image_pixels [OF h, of exact_ops 1 1 2 3]
  obtain img where run: "create_grayscale_mandelbrot_image exact_ops 1 1 2 3 2 = Inr img"
    and len: "length img = nat (2 * 2)"
    and px: "\<And>x y. 0 \<le> x \<and> x < 2 \<and> 0 \<le> y \<and> y < 2 \<Longrightarrow>
         img ! nat (y * 2 + x) =
           word_of_int (3 - get_number_of_iterations exact_ops
             (get_scaled_coordinate exact_ops 2 2 1 (d_of_int exact_ops x),
              get_scaled_coordinate exact_ops 2 2 1 (d_of_int exact_ops y)) 2 3)"
    by blast
  have img: "img = [0, 1, 0, 2]" using run image_2x2 by simp
  have c: "get_scaled_coordinate exact_ops 2 2 1 (d_of_int exact_ops 0) = 0"
    "get_scaled_coordinate exact_ops 2 2 1 (d_of_int exact_ops 1) = 1"
    by (simp_all add: get_scaled_coordinate_def)
  have "img ! nat (0 * 2 + 1) = word_of_int (3 - get_number_of_iterations exact_ops (1, 0) 2 3)"
    using px [of 1 0] by (simp only: c) simp
  moreover have "img ! nat (1 * 2 + 0) = word_of_int (3 - get_number_of_iterations exact_ops (0, 1) 2 3)"
    using px [of 0 1] by (simp only: c) simp
  moreover have "img ! nat (1 * 2 + 1) = word_of_int (3 - get_number_of_iterations exact_ops (1, 1) 2 3)"
    using px [of 1 1] by (simp only: c) simp
  ultimately show ?thesis using h len image_2x2 unfolding img by blast
qed

text \<open>
  Claim C2: \<open>get_number_of_iterations\<close> is the evaluator of the specification: the
  recurrence variable starts at \<open>c\<close> (the orbit's point of index 0 is \<open>c\<close>, not 0), the
  result is the first index \<open>i < max_iterations\<close> at which \<open>|z| > bound\<close> holds for the
  \<open>i\<close>-th point of the orbit of \<open>z := z * z + c\<close>, and \<open>max_iterations\<close> when there is no such
  index. In particular the first check is on \<open>|c|\<close>: a point beyond the bound gives 0.
\<close>

theorem get_number_of_iterations_algorithm:
  "get_number_of_iterations ops c bound mx = EscapeTimeEvaluator ops c bound mx \<and>
   orbit ops c 0 = c \<and>
   (0 < mx \<and> d_gt ops (c_abs ops c) bound \<longrightarrow> get_number_of_iterations ops c bound mx = 0)"
proof -
  have "get_number_of_iterations ops c bound mx = EscapeTimeEvaluator ops c bound mx"
    unfolding get_number_of_iterations_def EscapeTimeEvaluator_def
    using iterations_loop_find [of 0 c ops c bound mx] by simp
  moreover have "0 < mx \<and> d_gt ops (c_abs ops c) bound \<longrightarrow>
      get_number_of_iterations ops c bound mx = 0"
    using iterations_escape_at_once [of mx ops c bound] by blast
  ultimately show ?thesis by simp
qed

text \<open>The point \<open>(3, 0)\<close> with bound 2 escapes at the first check.\<close>

theorem get_number_of_iterations_algorithm_witness:
  "(0 :: int) < 255 \<and> d_gt exact_ops (c_abs exact_ops (3, 0)) 2 \<and>
   get_number_of_iterations exact_ops (3, 0) 2 255 = 0 \<and>
   EscapeTimeEvaluator exact_ops (3, 0) 2 255 = 0"
  using get_number_of_iterations_algorithm [of exact_ops "(3, 0)" 2 255] by simp

text \<open>
  Claim C3: for every point, every bound and every \<open>max_iterations > 0\<close>,
  \<open>get_number_of_iterations\<close> returns (it is a total function: its loop terminates) an
  integer in \<open>[0, max_iterations]\<close>; so the gray value that the generator computes for a
  pixel, before it is narrowed to a byte, lies in \<open>[0, max_iterations]\<close>.
\<close>

theorem get_number_of_iterations_range:
  "0 < mx \<Longrightarrow>
   0 \<le> get_number_of_iterations ops c bound mx \<and>
   get_number_of_iterations ops c bound mx \<le> mx \<and>
   0 \<le> pixel_gray ops cx cy sz mx pw x y \<and>
   pixel_gray ops cx cy sz mx pw x y \<le> mx"
proof -
  assume "0 < mx"
  then have r: "0 \<le> get_number_of_iterations ops z b mx \<and> get_number_of_iterations ops z b mx \<le> mx"
    for z b
    unfolding get_number_of_iterations_def using iterations_loop_range [of 0 mx ops z b z] by simp
  from r [of c bound] r [of "pixel_point ops cx cy sz pw x y" sz]
  show ?thesis by (simp add: pixel_gray_def)
qed

theorem get_number_of_iterations_range_witness:
  "(0 :: int) < 3 \<and>
   0 \<le> get_number_of_iterations exact_ops (3, 0) 2 3 \<and>
   get_number_of_iterations exact_ops (3, 0) 2 3 \<le> 3 \<and>
   0 \<le> pixel_gray exact_ops 4 1 2 3 1 0 0 \<and>
   pixel_gray exact_ops 4 1 2 3 1 0 0 \<le> 3"
  using get_number_of_iterations_range [of 3 exact_ops "(3, 0)" 2 4 1 2 1 0 0] by simp

text \<open>
  Claim C4: for every center, size, pixel index and \<open>pixels_wide > 0\<close>, the lambda
  \<open>get_scaled_coordinate\<close> of the generator, called on a pixel index, computes
  \<open>center - size/2 + size * pixel_index / resolution\<close> with \<open>resolution = pixels_wide\<close>: the
  same operations in the same order as the specification's mapper, and on exact
  arithmetic that very value. The point of pixel \<open>(x, y)\<close> has the coordinate mapped from
  \<open>x\<close> with \<open>center_x\<close> and the one mapped from \<open>y\<close> with \<open>center_y\<close>, both with the same size
  and resolution.
\<close>

theorem get_scaled_coordinate_formula:
  "0 < pw \<Longrightarrow>
   get_scaled_coordinate ops sz pw center (d_of_int ops xy) = CoordinateMapper ops center sz xy pw \<and>
   pixel_point ops cx cy sz pw x y =
     (CoordinateMapper ops cx sz x pw, CoordinateMapper ops cy sz y pw) \<and>
   get_scaled_coordinate exact_ops s pw c (of_int xy) = c - s / 2 + s * of_int xy / of_int pw"
  by (simp add: get_scaled_coordinate_def CoordinateMapper_def pixel_point_def)

text \<open>
  The window of centre \<open>-1/2\<close> and size 2 on four pixels: pixel index 2 is mapped back to
  the centre.
\<close>

theorem get_scaled_coordinate_formula_witness:
  "(0 :: int) < 4 \<and>
   get_scaled_coordinate exact_ops 2 4 (- 1 / 2) (d_of_int exact_ops 2) = - 1 / 2 \<and>
   CoordinateMapper exact_ops (- 1 / 2) 2 2 4 = - 1 / 2 \<and>
   pixel_point exact_ops (- 1 / 2) 0 2 4 2 2 = (- 1 / 2, 0)"
  using get_scaled_coordinate_formula [of 4 exact_ops 2 "- 1 / 2" 2 "- 1 / 2" 0 2 2 2 "- 1 / 2"]
  by (simp add: CoordinateMapper_def)

text \<open>
  Claim C5, with the direction the subtraction \<open>max_iterations - iterations\<close> gives: in a
  buffer the generator returns, the byte of every pixel is \<open>max_iterations\<close> minus the
  evaluator result, narrowed to a byte. So a pixel whose evaluator result is
  \<open>max_iterations\<close> (the point stayed bounded) is stored as 0, the dark floor; and while
  \<open>0 < max_iterations \<le> 255\<close>, so that narrowing loses nothing, the stored intensity of
  every pixel is exactly \<open>max_iterations\<close> minus its evaluator result, within
  \<open>[0, max_iterations]\<close>: a pixel whose evaluator result is small (a quick escape) is
  stored that small amount below the bright maximum \<open>max_iterations\<close>, and the result 0
  gives \<open>max_iterations\<close> itself.
\<close>

theorem stored_intensity:
  assumes "create_grayscale_mandelbrot_image ops cx cy sz mx pw = Inr img"
    and "0 \<le> x" "x < pw" "0 \<le> y" "y < pw"
  shows "img ! nat (y * pw + x) =
           word_of_int (mx - get_number_of_iterations ops (pixel_point ops cx cy sz pw x y) sz mx) \<and>
         (get_number_of_iterations ops (pixel_point ops cx cy sz pw x y) sz mx = mx \<longrightarrow>
            img ! nat (y * pw + x) = 0) \<and>
         (0 < mx \<and> mx \<le> 255 \<longrightarrow>
            uint (img ! nat (y * pw + x)) =
              mx - get_number_of_iterations ops (pixel_point ops cx cy sz pw x y) sz mx \<and>
            0 \<le> uint (img ! nat (y * pw + x)) \<and> uint (img ! nat (y * pw + x)) \<le> mx \<and>
            (get_number_of_iterations ops (pixel_point ops cx cy sz pw x y) sz mx = 0 \<longrightarrow>
               uint (img ! nat (y * pw + x)) = mx))"
proof -
  define r where "r = get_number_of_iterations ops (pixel_point ops cx cy sz pw x y) sz mx"
  have px: "img ! nat (y * pw + x) = word_of_int (mx - r)"
    using generator_pixel [OF assms] by (simp only: pixel_gray_def Let_def r_def)
  have dark: "img ! nat (y * pw + x) = 0" if "r = mx"
    using px that by simp
  have bright: "uint (img ! nat (y * pw + x)) = mx - r \<and> 0 \<le> uint (img ! nat (y * pw + x)) \<and>
      uint (img ! nat (y * pw + x)) \<le> mx \<and> (r = 0 \<longrightarrow> uint (img ! nat (y * pw + x)) = mx)"
    if m: "0 < mx" "mx \<le> 255"
  proof -
    have "0 \<le> r \<and> r \<le> mx"
      unfolding r_def get_number_of_iterations_def
      using iterations_loop_range [of 0 mx] m(1) by simp
    then have b: "0 \<le> mx - r" "mx - r < 256" "mx - r \<le> mx" using m(2) by simp_all
    have "uint (img ! nat (y * pw + x)) = (mx - r) mod 256" by (simp only: px uint_byte)
    also have "\<dots> = mx - r" using b(1,2) by simp
    finally show ?thesis using b by simp
  qed
  from px dark bright show ?thesis unfolding r_def by blast
qed

text \<open>
  On the grid of two by two pixels with \<open>max_iterations = 3\<close>: the pixel \<open>(1, 1)\<close> escapes
  after 1 iteration and is stored as 2, the pixel \<open>(1, 0)\<close> after 2 and is stored as 1, the
  pixel \<open>(0, 0)\<close> stays bounded and is stored as 0.
\<close>

theorem stored_intensity_witness:
  "create_grayscale_mandelbrot_image exact_ops 1 1 2 3 2 = Inr [0, 1, 0, 2] \<and>
   (0 :: int) < 3 \<and> (3 :: int) \<le> 255 \<and>
   get_number_of_iterations exact_ops (pixel_point exact_ops 1 1 2 2 1 1) 2 3 = 1 \<and>
   uint ([0, 1, 0, 2 :: 8 word] ! nat (1 * 2 + 1)) = 3 - 1 \<and>
   get_number_of_iterations exact_ops (pixel_point exact_ops 1 1 2 2 1 0) 2 3 = 2 \<and>
   uint ([0, 1, 0, 2 :: 8 word] ! nat (0 * 2 + 1)) = 3 - 2 \<and>
   get_number_of_iterations exact_ops (pixel_point exact_ops 1 1 2 2 0 0) 2 3 = 3 \<and>
   [0, 1, 0, 2 :: 8 word] ! nat (0 * 2 + 0) = 0"
proof -
  have r: "get_number_of_iterations exact_ops (pixel_point exact_ops 1 1 2 2 1 1) 2 3 = 1"
    "get_number_of_iterations exact_ops (pixel_point exact_ops 1 1 2 2 1 0) 2 3 = 2"
    "get_number_of_iterations exact_ops (pixel_point exact_ops 1 1 2 2 0 0) 2 3 = 3"
    by (simp_all add: points_2x2 iterations_1_1 iterations_1_0 iterations_origin_exact)
  from stored_intensity [OF image_2x2, of 1 1] stored_intensity [OF image_2x2, of 1 0]
    stored_intensity [OF image_2x2, of 0 0] r image_2x2
  show ?thesis by simp
qed

text \<open>
  With \<open>max_iterations = 3\<close>, the pixel at the origin has the evaluator result 3 and the
  stored byte is 0, not 3; the pixel at \<open>(3, 0)\<close> has the evaluator result 0 and the stored
  byte is 3, not near 0.
\<close>

theorem bounded_pixel_stored_dark:
  "get_number_of_iterations exact_ops (pixel_point exact_ops 1 1 2 1 0 0) 2 3 = 3 \<and>
   create_grayscale_mandelbrot_image exact_ops 1 1 2 3 1 = Inr [0] \<and>
   (0 :: 8 word) \<noteq> word_of_int 3 \<and>
   get_number_of_iterations exact_ops (pixel_point exact_ops 4 1 2 1 0 0) 2 3 = 0 \<and>
   create_grayscale_mandelbrot_image exact_ops 4 1 2 3 1 = Inr [3] \<and>
   (3 :: 8 word) = word_of_int 3"
  by (simp add: point_a point_b iterations_origin_exact iterations_escape_at_once image_a image_b)

text \<open>
  Claim C6: for \<open>c = (0.0, 0.0)\<close>, every bound greater than zero and
  \<open>max_iterations = 255\<close>, \<open>get_number_of_iterations\<close> returns 255. The facts of the
  arithmetic it rests on are the ones the claim names: \<open>0 * 0 = 0\<close> and \<open>0 + 0 = 0\<close> on
  complex numbers, \<open>|0| = 0\<close>, and that \<open>>\<close> is asymmetric, so that \<open>|0| > bound\<close> is false
  for a bound above zero. IEEE 754 arithmetic satisfies them.
\<close>

theorem get_number_of_iterations_origin:
  fixes ops :: "'d fp_ops" and bound :: 'd
  assumes mul: "c_mul ops (d_of_int ops 0, d_of_int ops 0) (d_of_int ops 0, d_of_int ops 0) =
                  (d_of_int ops 0, d_of_int ops 0)"
    and add: "c_add ops (d_of_int ops 0, d_of_int ops 0) (d_of_int ops 0, d_of_int ops 0) =
                  (d_of_int ops 0, d_of_int ops 0)"
    and abs: "c_abs ops (d_of_int ops 0, d_of_int ops 0) = d_of_int ops 0"
    and asym: "\<And>a b. d_gt ops a b \<Longrightarrow> \<not> d_gt ops b a"
    and pos: "d_gt ops bound (d_of_int ops 0)"
  shows "get_number_of_iterations ops (d_of_int ops 0, d_of_int ops 0) bound 255 = 255"
proof -
  let ?z = "(d_of_int ops 0, d_of_int ops 0)"
  have "c_add ops (c_mul ops ?z ?z) ?z = ?z" by (simp only: mul add)
  moreover have "\<not> d_gt ops (c_abs ops ?z) bound" using asym [OF pos] by (simp add: abs)
  ultimately show ?thesis
    unfolding get_number_of_iterations_def by (rule iterations_loop_fixed)
qed

text \<open>
  The exact operations satisfy the five facts; with bound 2 the origin runs all 255 steps.
\<close>

theorem get_number_of_iterations_origin_witness:
  "c_mul exact_ops (d_of_int exact_ops 0, d_of_int exact_ops 0)
       (d_of_int exact_ops 0, d_of_int exact_ops 0) = (d_of_int exact_ops 0, d_of_int exact_ops 0) \<and>
   c_add exact_ops (d_of_int exact_ops 0, d_of_int exact_ops 0)
       (d_of_int exact_ops 0, d_of_int exact_ops 0) = (d_of_int exact_ops 0, d_of_int exact_ops 0) \<and>
   c_abs exact_ops (d_of_int exact_ops 0, d_of_int exact_ops 0) = d_of_int exact_ops 0 \<and>
   (\<forall>a b. \<not> (d_gt exact_ops a b \<and> d_gt exact_ops b a)) \<and>
   d_gt exact_ops 2 (d_of_int exact_ops 0) \<and>
   get_number_of_iterations exact_ops (0, 0) 2 255 = 255"
proof -
  have "get_number_of_iterations exact_ops (d_of_int exact_ops 0, d_of_int exact_ops 0) 2 255 = 255"
    by (rule get_number_of_iterations_origin) simp_all
  then show ?thesis by simp
qed

text \<open>
  Claim C7: when \<open>max_iterations > 255\<close>, the byte stored for a pixel of a buffer the
  generator returns is \<open>(max_iterations - iterations) mod 256\<close>: the conversion from
  \<^verbatim>\<open>int\<close> to \<^verbatim>\<open>uint8_t\<close> wraps around and does not saturate.
\<close>

theorem stored_byte_modular:
  assumes "create_grayscale_mandelbrot_image ops cx cy sz mx pw = Inr img"
    and "255 < mx" and "0 \<le> x" "x < pw" "0 \<le> y" "y < pw"
  shows "uint (img ! nat (y * pw + x)) =
           (mx - get_number_of_iterations ops (pixel_point ops cx cy sz pw x y) sz mx) mod 256"
proof -
  have "img ! nat (y * pw + x) = word_of_int (pixel_gray ops cx cy sz mx pw x y)"
    using assms(1,3-6) by (rule generator_pixel)
  then have "uint (img ! nat (y * pw + x)) = pixel_gray ops cx cy sz mx pw x y mod 256"
    by (simp only: uint_byte)
  then show ?thesis by (simp only: pixel_gray_def Let_def)
qed

text \<open>
  With \<open>max_iterations = 256\<close> a pixel that escapes at once has the gray value 256, and
  the byte stored is 0.
\<close>

theorem stored_byte_modular_witness:
  "create_grayscale_mandelbrot_image exact_ops 4 1 2 256 1 = Inr [0] \<and> (255 :: int) < 256 \<and>
   get_number_of_iterations exact_ops (pixel_point exact_ops 4 1 2 1 0 0) 2 256 = 0 \<and>
   uint ([0 :: 8 word] ! nat (0 * 1 + 0)) = (256 - 0) mod 256"
proof -
  have "get_number_of_iterations exact_ops (pixel_point exact_ops 4 1 2 1 0 0) 2 256 = 0"
    by (simp add: point_b iterations_escape_at_once)
  with stored_byte_modular [OF image_c, of 0 0] image_c show ?thesis by simp
qed

text \<open>
  Claim C8 (two invocations with identical arguments give byte-identical buffers) is
  not stated as a theorem: \<open>create_grayscale_mandelbrot_image\<close> is a function here, and
  equal arguments give equal results for every function. What the claim rests on in the
  source is visible in the embedding: the generator reads its five arguments only, the
  buffer starts as zeros, and by \<open>generator_pixels\<close> each byte of a returned buffer is a
  fixed expression in the arguments.
\<close>

text \<open>
  Claim C9 states that for every \<open>pixels_wide > 0\<close> the offsets of distinct pixels of
  \<open>[0, pixels_wide)\<^sup>2\<close> are distinct. The offset is computed in \<^verbatim>\<open>uint32_t\<close> and wraps:
  at \<open>pixels_wide = 65537\<close> the pixels \<open>(65536, 0)\<close> and \<open>(0, 65536)\<close> have the same offset,
  since \<open>65536 * 65537 = 2\<^sup>3\<^sup>2 + 65536\<close> wraps to \<open>65536\<close>.
\<close>

theorem offset_in_interleaved_1d_vec_collision:
  "(0 :: int) < 65537 \<and> ((65536 :: int), (0 :: int)) \<noteq> (0, 65536) \<and>
   (65536 :: int) < 65537 \<and>
   offset_in_interleaved_1d_vec 1 (word_of_int 65537) (word_of_int 65536) (word_of_int 0) 0 =
   offset_in_interleaved_1d_vec 1 (word_of_int 65537) (word_of_int 0) (word_of_int 65536) 0"
  by (simp add: offset_in_interleaved_1d_vec_def)

text \<open>
  Up to the width \<open>65536\<close> nothing wraps: the offset function as the generator calls it
  maps distinct pixels of \<open>[0, pixels_wide)\<^sup>2\<close> to distinct offsets, each less than
  \<open>pixels_wide * pixels_wide\<close>, which is the length of the buffer whenever the generator
  allocates one (\<open>pixels_wide * pixels_wide \<le> INT_MAX\<close>).
\<close>

theorem offset_in_interleaved_1d_vec_disjoint:
  fixes pw :: int
  assumes "0 < pw" "pw \<le> 65536"
    and "0 \<le> x1" "x1 < pw" "0 \<le> y1" "y1 < pw"
    and "0 \<le> x2" "x2 < pw" "0 \<le> y2" "y2 < pw"
    and "(x1, y1) \<noteq> (x2, y2)"
  shows "offset_in_interleaved_1d_vec 1 (word_of_int pw) (word_of_int x1) (word_of_int y1) 0 \<noteq>
         offset_in_interleaved_1d_vec 1 (word_of_int pw) (word_of_int x2) (word_of_int y2) 0 \<and>
         offset_in_interleaved_1d_vec 1 (word_of_int pw) (word_of_int x1) (word_of_int y1) 0
           < nat (pw * pw) \<and>
         offset_in_interleaved_1d_vec 1 (word_of_int pw) (word_of_int x2) (word_of_int y2) 0
           < nat (pw * pw)"
proof -
  have "pw * pw \<le> 65536 * 65536" using assms(1,2) by (intro mult_mono) auto
  then have sq: "pw * pw \<le> 2 ^ 32" by simp
  have inb: "offset_in_interleaved_1d_vec 1 (word_of_int pw) (word_of_int x) (word_of_int y) 0
           < nat (pw * pw)" if xy: "0 \<le> x" "x < pw" "0 \<le> y" "y < pw" for x y
  proof -
    have "0 \<le> y * pw + x" "y * pw + x < pw * pw" using pixel_index_bound [OF xy] by blast+
    then show ?thesis using offset_nat [OF xy sq] by simp
  qed
  from offset_injective [OF assms(2-11)] inb [OF assms(3-6)] inb [OF assms(7-10)]
  show ?thesis by simp
qed

text \<open>
  On a grid of width 2 the pixels \<open>(1, 0)\<close> and \<open>(0, 1)\<close> have different offsets below 4.
\<close>

theorem offset_in_interleaved_1d_vec_disjoint_witness:
  "(0 :: int) < 2 \<and> (2 :: int) \<le> 65536 \<and> ((1 :: int), (0 :: int)) \<noteq> (0, 1) \<and>
   offset_in_interleaved_1d_vec 1 (word_of_int 2) (word_of_int 1) (word_of_int 0) 0 \<noteq>
   offset_in_interleaved_1d_vec 1 (word_of_int 2) (word_of_int 0) (word_of_int 1) 0 \<and>
   offset_in_interleaved_1d_vec 1 (word_of_int 2) (word_of_int 1) (word_of_int 0) 0 < nat (2 * 2) \<and>
   offset_in_interleaved_1d_vec 1 (word_of_int 2) (word_of_int 0) (word_of_int 1) 0 < nat (2 * 2)"
  using offset_in_interleaved_1d_vec_disjoint [of 2 1 0 0 1] by simp

text \<open>
  Claim C10, with the range stated for the boundary \<open>max_iterations = 0\<close> as well: for
  every point and every bound, when \<open>max_iterations \<le> 0\<close> the evaluator returns
  \<open>max_iterations\<close> as it is, whatever the point, the bound and the arithmetic, since the
  loop body never runs; in particular a negative \<open>max_iterations\<close> is returned as it is.
  The result lies in the documented range \<open>[0, max_iterations]\<close> exactly when
  \<open>max_iterations \<ge> 0\<close>.
\<close>

theorem get_number_of_iterations_nonpositive_max:
  "(mx \<le> 0 \<longrightarrow>
      get_number_of_iterations ops c bound mx = mx \<and>
      get_number_of_iterations ops c bound mx = get_number_of_iterations ops' c' bound' mx) \<and>
   ((0 \<le> get_number_of_iterations ops c bound mx \<and> get_number_of_iterations ops c bound mx \<le> mx)
      \<longleftrightarrow> 0 \<le> mx)"
proof -
  have r: "get_number_of_iterations p z b mx = mx" if "mx \<le> 0" for p :: "'e fp_ops" and z b
    unfolding get_number_of_iterations_def using that by (subst iterations_loop.simps) simp
  have first: "mx \<le> 0 \<longrightarrow>
      get_number_of_iterations ops c bound mx = mx \<and>
      get_number_of_iterations ops c bound mx = get_number_of_iterations ops' c' bound' mx"
    using r [of ops c bound] r [of ops' c' bound'] by simp
  have "0 \<le> get_number_of_iterations ops c bound mx \<and> get_number_of_iterations ops c bound mx \<le> mx"
    if "0 < mx"
    unfolding get_number_of_iterations_def using iterations_loop_range [of 0 mx] that by simp
  moreover have "get_number_of_iterations ops c bound mx = mx" if "mx \<le> 0"
    using r [OF that] .
  ultimately have "(0 \<le> get_number_of_iterations ops c bound mx \<and>
      get_number_of_iterations ops c bound mx \<le> mx) \<longleftrightarrow> 0 \<le> mx"
    by (cases "0 < mx") auto
  with first show ?thesis by blast
qed

text \<open>
  With \<open>max_iterations = -3\<close> the point \<open>(3, 0)\<close>, beyond the bound 2, gives \<open>-3\<close>, as the
  origin does, and \<open>-3\<close> is not in the range.
\<close>

theorem get_number_of_iterations_nonpositive_max_witness:
  "(- 3 :: int) \<le> 0 \<and> d_gt exact_ops (c_abs exact_ops (3, 0)) 2 \<and>
   get_number_of_iterations exact_ops (3, 0) 2 (- 3) = - 3 \<and>
   get_number_of_iterations exact_ops (3, 0) 2 (- 3) = get_number_of_iterations exact_ops (0, 0) 1 (- 3) \<and>
   \<not> (0 \<le> get_number_of_iterations exact_ops (3, 0) 2 (- 3) \<and>
        get_number_of_iterations exact_ops (3, 0) 2 (- 3) \<le> - 3)"
  using get_number_of_iterations_nonpositive_max [of "- 3" exact_ops "(3, 0)" 2 exact_ops "(0, 0)" 1]
  by simp

text \<open>
  With \<open>max_iterations = 0\<close>, which is not greater than 0, the result is 0 and lies in
  \<open>[0, 0]\<close>.
\<close>

theorem get_number_of_iterations_zero_max:
  "\<not> (0 :: int) < 0 \<and>
   get_number_of_iterations exact_ops (3, 0) 2 0 = 0 \<and>
   0 \<le> get_number_of_iterations exact_ops (3, 0) 2 0 \<and>
   get_number_of_iterations exact_ops (3, 0) 2 0 \<le> 0"
  by (simp add: get_number_of_iterations_def loop_end)

end
